theory Spec2Isabelle
  imports Main "HOL-Library.Word"
begin

section \<open>Traffic Monitor: the health result manager\<close>

text \<open>
  A shallow embedding of \<^verbatim>\<open>traffic_monitor/manager/health.go\<close>: the function
  \<^verbatim>\<open>processHealthResult\<close>, which applies one batch of cache poll results to the
  monitor's stores. The stores are fields of a state record that the model passes along
  and returns; a panic of one of the two external computations is an outcome of the
  model, so that the deferred completion signalling is a branch of it. The listening
  loop \<^verbatim>\<open>healthResultManagerListen\<close>, which waits on a channel and a ticker, is not
  part of the embedding.
\<close>

subsection \<open>Data\<close>

type_synonym cacheName = string

text \<open>
  Modelled from the spec: the declaration of \<^verbatim>\<open>cache.Result\<close> is not among the
  sources. The fields are those the manager reads, under the names it reads them by:
  the cache's name, the poll's number, the channel the poller waits on (a channel is
  modelled by its identity, a number; 0 is the nil channel), the poll's error (\<open>None\<close>
  is Go's nil) and, for the spec's vitals payload, a field of any type with a zero.
\<close>

record 'v result =
  ID :: cacheName
  PollID :: "64 word"
  PollFinished :: nat
  Error :: "string option"
  Vitals :: 'v

text \<open>The zero value of \<^verbatim>\<open>cache.Result\<close> (\<^verbatim>\<open>var prevResult cache.Result\<close>).\<close>

definition zeroResult :: "('v::zero) result" where
  "zeroResult = \<lparr>ID = [], PollID = 0, PollFinished = 0, Error = None, Vitals = 0\<rparr>"

text \<open>
  Modelled from the spec: the declarations of the configuration types are not among the
  sources. The fields are those of the path the manager reads,
  \<^verbatim>\<open>Profile[TrafficServer[id].Profile].Parameters.HistoryCount\<close>. The history count
  is an integer that the manager converts with \<^verbatim>\<open>uint64(...)\<close> and that the spec
  lets be less than 1: a signed machine integer, Go's \<^verbatim>\<open>int\<close>, here 64 bits in
  two's complement, read signed by \<open>sint\<close> and unsigned by \<open>unat\<close>.
\<close>

record parameters =
  HistoryCount :: "64 word"

record profile =
  Parameters :: parameters

record trafficServer =
  ServerProfile :: string

record trafficMonitorConfig =
  TrafficServer :: "string \<rightharpoonup> trafficServer"
  Profile :: "string \<rightharpoonup> profile"

text \<open>Reading a Go map at a key it does not hold gives the zero value of the element type.\<close>

definition serverOf :: "trafficMonitorConfig \<Rightarrow> string \<Rightarrow> trafficServer" where
  "serverOf cfg k = (case TrafficServer cfg k of None \<Rightarrow> \<lparr>ServerProfile = []\<rparr> | Some t \<Rightarrow> t)"

definition profileOf :: "trafficMonitorConfig \<Rightarrow> string \<Rightarrow> profile" where
  "profileOf cfg k =
     (case Profile cfg k of None \<Rightarrow> \<lparr>Parameters = \<lparr>HistoryCount = 0\<rparr>\<rparr> | Some p \<Rightarrow> p)"

definition historyOf :: "(cacheName \<rightharpoonup> 'v result list) \<Rightarrow> cacheName \<Rightarrow> 'v result list" where
  "historyOf h k = (case h k of None \<Rightarrow> [] | Some rs \<Rightarrow> rs)"

text \<open>
  What the function does to the world outside its stores, in the order it does it: the
  snapshots it takes of the shared stores, the stores it replaces, and the sends on the
  polls' completion channels (\<^verbatim>\<open>r.PollFinished <- r.PollID\<close>).
\<close>

datatype event =
    GetToData
  | GetMonitorConfig
  | GetHealthHistory
  | SetHealthHistory
  | GetLastHealthDurations
  | SetLastHealthDurations
  | Send nat "64 word"

text \<open>
  Modelled from the spec: the store types of package \<^verbatim>\<open>threadsafe\<close> are not among the
  sources; each store is the value it holds, read whole and replaced whole, and a
  counter is an unsigned 64-bit number. Times and durations are whole nanoseconds.
  \<open>avail\<close> stands for the three stores only the availability computation writes
  (cache status, local states, events). The clock is a function from the number of the
  reading to the time read; \<open>clockReads\<close> counts the readings made so far.
\<close>

record ('v, 't, 'a) state =
  toData :: 't
  monitorConfig :: trafficMonitorConfig
  healthHistory :: "cacheName \<rightharpoonup> 'v result list"
  lastHealthDurations :: "cacheName \<rightharpoonup> int"
  lastHealthEndTimes :: "cacheName \<rightharpoonup> int"
  fetchCount :: "64 word"
  errorCount :: "64 word"
  avail :: 'a
  clockReads :: nat
  trace :: "event list"

datatype outcome = Returned | Panicked

text \<open>
  Modelled from the spec: \<^verbatim>\<open>health.GetVitals\<close> is not among the sources. The spec
  gives its interface, \<open>(result, previous, config) \<rightarrow> enriched result\<close>; it is a
  parameter of the model, and \<open>None\<close> is a panic inside it.
\<close>

type_synonym 'v getVitals =
  "'v result \<Rightarrow> 'v result \<Rightarrow> trafficMonitorConfig \<Rightarrow> 'v result option"

text \<open>
  Modelled from the spec: \<^verbatim>\<open>health.CalcAvailability\<close> is not among the sources. The
  spec gives its interface: from the batch, the config snapshot and the topology snapshot
  it changes the status, state and event stores. It is a parameter of the model; the
  outcome says whether it returned or panicked, the stores are as it left them.
\<close>

type_synonym ('v, 't, 'a) calcAvailability =
  "'v result list \<Rightarrow> trafficMonitorConfig \<Rightarrow> 't \<Rightarrow> 'a \<Rightarrow> outcome \<times> 'a"

subsection \<open>The steps of one result\<close>

text \<open>
  Lines 167 to 171: the previous result handed to the vitals computation is the entry at
  index \<open>len - 1\<close> of the cache's history, and the zero value when there is none.
\<close>

definition prevResult :: "('v::zero) result list \<Rightarrow> 'v result" where
  "prevResult healthResultHistory =
     (if length healthResultHistory \<noteq> 0
      then healthResultHistory ! (length healthResultHistory - 1)
      else zeroResult)"

text \<open>
  Lines 173 to 176: a result without an error is enriched, one with an error is left as
  it is; \<open>None\<close> when the vitals computation panics.
\<close>

definition enrich ::
  "('v::zero) getVitals \<Rightarrow> trafficMonitorConfig \<Rightarrow> (cacheName \<rightharpoonup> 'v result list) \<Rightarrow>
     'v result \<Rightarrow> 'v result option" where
  "enrich getVitals cfg healthHistoryCopy healthResult =
     (if Error healthResult = None
      then getVitals healthResult (prevResult (historyOf healthHistoryCopy (ID healthResult))) cfg
      else Some healthResult)"

text \<open>
  Lines 178 to 182: the history count is converted to \<^verbatim>\<open>uint64\<close> (the same 64 bits,
  read unsigned from here on) and then compared with 1; \<open><\<close> on words is the unsigned
  order.
\<close>

definition maxHistory :: "trafficMonitorConfig \<Rightarrow> cacheName \<Rightarrow> 64 word" where
  "maxHistory cfg cacheId =
     (let m = HistoryCount (Parameters (profileOf cfg (ServerProfile (serverOf cfg cacheId))))
      in if m < 1 then 1 else m)"

text \<open>
  Modelled from the spec: \<^verbatim>\<open>pruneHistory\<close> is called here and defined in a file of
  the package that is not among the sources. The spec's words: the sequence with the new
  entry in front is truncated to the maximum length. The caller passes the sequence with
  the new entry already in front, and the limit.
\<close>

definition pruneHistory :: "'v result list \<Rightarrow> 64 word \<Rightarrow> 'v result list" where
  "pruneHistory history limit = take (unat limit) history"

text \<open>Line 184: the result goes in front of the cache's history, which is then pruned.\<close>

definition addHistory ::
  "trafficMonitorConfig \<Rightarrow> (cacheName \<rightharpoonup> 'v result list) \<Rightarrow> 'v result \<Rightarrow>
     (cacheName \<rightharpoonup> 'v result list)" where
  "addHistory cfg healthHistoryCopy healthResult =
     healthHistoryCopy(ID healthResult \<mapsto>
       pruneHistory (healthResult # historyOf healthHistoryCopy (ID healthResult))
         (maxHistory cfg (ID healthResult)))"

subsection \<open>The loops\<close>

text \<open>
  Lines 165 to 185. \<open>done\<close> holds the part of the batch already processed (enriched in
  place), \<open>fc\<close> the fetch counter. When the vitals computation panics the batch keeps
  the result it was called on as it was, and the results after it.
\<close>

fun historyLoop ::
  "('v::zero) getVitals \<Rightarrow> trafficMonitorConfig \<Rightarrow> 'v result list \<Rightarrow> 'v result list \<Rightarrow>
     (cacheName \<rightharpoonup> 'v result list) \<Rightarrow> 64 word \<Rightarrow>
     outcome \<times> 'v result list \<times> (cacheName \<rightharpoonup> 'v result list) \<times> 64 word" where
  "historyLoop getVitals cfg done [] hist fc = (Returned, done, hist, fc)"
| "historyLoop getVitals cfg done (r # rest) hist fc =
     (case enrich getVitals cfg hist r of
        None \<Rightarrow> (Panicked, done @ r # rest, hist, fc + 1)
      | Some r' \<Rightarrow>
          historyLoop getVitals cfg (done @ [r']) rest (addHistory cfg hist r') (fc + 1))"

text \<open>
  Lines 193 to 199, one result: \<^verbatim>\<open>time.Since\<close> reads the clock when the cache has an
  end time, and \<^verbatim>\<open>time.Now\<close> reads it again for the new end time.
\<close>

definition durationStep ::
  "(nat \<Rightarrow> int) \<Rightarrow> 'v result \<Rightarrow>
     (cacheName \<rightharpoonup> int) \<times> (cacheName \<rightharpoonup> int) \<times> nat \<Rightarrow>
     (cacheName \<rightharpoonup> int) \<times> (cacheName \<rightharpoonup> int) \<times> nat" where
  "durationStep now healthResult st =
     (case st of (durations, endTimes, n) \<Rightarrow>
        (case endTimes (ID healthResult) of
           Some lastHealthStart \<Rightarrow>
             (durations(ID healthResult \<mapsto> now n - lastHealthStart),
              endTimes(ID healthResult \<mapsto> now (Suc n)),
              Suc (Suc n))
         | None \<Rightarrow>
             (durations, endTimes(ID healthResult \<mapsto> now n), Suc n)))"

fun durationLoop ::
  "(nat \<Rightarrow> int) \<Rightarrow> 'v result list \<Rightarrow>
     (cacheName \<rightharpoonup> int) \<times> (cacheName \<rightharpoonup> int) \<times> nat \<Rightarrow>
     (cacheName \<rightharpoonup> int) \<times> (cacheName \<rightharpoonup> int) \<times> nat" where
  "durationLoop now [] st = st"
| "durationLoop now (r # rest) st = durationLoop now rest (durationStep now r st)"

text \<open>
  Lines 155 to 160, the deferred function: for every result of the batch, as the batch
  is when the function ends, one clock reading (for the debug line) and one send.
\<close>

fun signalAll :: "'v result list \<Rightarrow> ('v, 't, 'a) state \<Rightarrow> ('v, 't, 'a) state" where
  "signalAll [] s = s"
| "signalAll (r # rest) s =
     signalAll rest
       (s\<lparr>clockReads := Suc (clockReads s),
          trace := trace s @ [Send (PollFinished r) (PollID r)]\<rparr>)"

subsection \<open>processHealthResult\<close>

text \<open>Lines 187 to 200: what follows the first loop when it ends without a panic.\<close>

definition finishBatch ::
  "('v, 't, 'a) calcAvailability \<Rightarrow> (nat \<Rightarrow> int) \<Rightarrow> 'v result list \<Rightarrow>
     trafficMonitorConfig \<Rightarrow> 't \<Rightarrow> (cacheName \<rightharpoonup> 'v result list) \<Rightarrow>
     ('v, 't, 'a) state \<Rightarrow> outcome \<times> ('v, 't, 'a) state" where
  "finishBatch calcAvailability now results cfg toDataCopy healthHistoryCopy s =
     (case calcAvailability results cfg toDataCopy (avail s) of
        (Panicked, a) \<Rightarrow> (Panicked, s\<lparr>avail := a\<rparr>)
      | (Returned, a) \<Rightarrow>
          (case durationLoop now results
                  (lastHealthDurations s, lastHealthEndTimes s, clockReads s) of
             (durations, endTimes, n) \<Rightarrow>
               (Returned,
                s\<lparr>avail := a,
                  healthHistory := healthHistoryCopy,
                  lastHealthDurations := durations,
                  lastHealthEndTimes := endTimes,
                  clockReads := n,
                  trace := trace s @
                    [SetHealthHistory, GetLastHealthDurations, SetLastHealthDurations]\<rparr>)))"

text \<open>
  The whole function. An empty batch returns at once (lines 152 to 154). Otherwise the
  three snapshots are taken, the first loop runs, then the rest; the deferred function
  runs last on every path, on the batch as the first loop left it.
\<close>

definition processHealthResult ::
  "('v::zero) getVitals \<Rightarrow> ('v, 't, 'a) calcAvailability \<Rightarrow> (nat \<Rightarrow> int) \<Rightarrow>
     'v result list \<Rightarrow> ('v, 't, 'a) state \<Rightarrow> outcome \<times> ('v, 't, 'a) state" where
  "processHealthResult getVitals calcAvailability now results s =
     (if length results = 0 then (Returned, s)
      else
        (case historyLoop getVitals (monitorConfig s) [] results (healthHistory s)
                (fetchCount s) of
           (out, results', healthHistoryCopy, fc) \<Rightarrow>
             (let s1 = s\<lparr>fetchCount := fc,
                         trace := trace s @ [GetToData, GetMonitorConfig, GetHealthHistory]\<rparr>
              in case out of
                   Panicked \<Rightarrow> (Panicked, signalAll results' s1)
                 | Returned \<Rightarrow>
                     (case finishBatch calcAvailability now results' (monitorConfig s)
                             (toData s) healthHistoryCopy s1 of
                        (out', s2) \<Rightarrow> (out', signalAll results' s2)))))"

text \<open>The completion signals of a trace: the channel and the poll number of every send.\<close>

fun sends :: "event list \<Rightarrow> (nat \<times> 64 word) list" where
  "sends [] = []"
| "sends (Send c p # es) = (c, p) # sends es"
| "sends (e # es) = sends es"

subsection \<open>Example inputs\<close>

text \<open>
  Three polls of the cache \<open>edge-1\<close> without an error and one that failed; a vitals
  computation that takes the difference to the previous result, and one that panics on
  poll 2; an availability computation that counts the results it has seen; a
  configuration that gives \<open>edge-1\<close> the profile \<open>EDGE1\<close> with a given history
  count; the state of a monitor that has processed nothing yet; a clock that advances by
  10 ns from one reading to the next.
\<close>

definition resultA :: "int result" where
  "resultA = \<lparr>ID = ''edge-1'', PollID = 1, PollFinished = 11, Error = None, Vitals = 100\<rparr>"

definition resultB :: "int result" where
  "resultB = \<lparr>ID = ''edge-1'', PollID = 2, PollFinished = 12, Error = None, Vitals = 250\<rparr>"

definition resultC :: "int result" where
  "resultC = \<lparr>ID = ''edge-1'', PollID = 3, PollFinished = 13, Error = None, Vitals = 450\<rparr>"

definition failedPoll :: "int result" where
  "failedPoll = \<lparr>ID = ''edge-1'', PollID = 4, PollFinished = 14, Error = Some ''timeout'', Vitals = 0\<rparr>"

definition deltaVitals :: "int getVitals" where
  "deltaVitals r prev cfg = Some (r\<lparr>Vitals := Vitals r - Vitals prev\<rparr>)"

definition failingVitals :: "int getVitals" where
  "failingVitals r prev cfg = (if PollID r = 2 then None else deltaVitals r prev cfg)"

definition countAvailability :: "(int, unit, nat) calcAvailability" where
  "countAvailability rs cfg td a = (Returned, a + length rs)"

definition configOf :: "64 word \<Rightarrow> trafficMonitorConfig" where
  "configOf n =
     \<lparr>TrafficServer = [''edge-1'' \<mapsto> \<lparr>ServerProfile = ''EDGE1''\<rparr>],
      Profile = [''EDGE1'' \<mapsto> \<lparr>Parameters = \<lparr>HistoryCount = n\<rparr>\<rparr>]\<rparr>"

definition startState :: "64 word \<Rightarrow> (int, unit, nat) state" where
  "startState n =
     \<lparr>toData = (), monitorConfig = configOf n, healthHistory = Map.empty,
      lastHealthDurations = Map.empty, lastHealthEndTimes = Map.empty,
      fetchCount = 0, errorCount = 0, avail = 0, clockReads = 0, trace = []\<rparr>"

definition tickClock :: "nat \<Rightarrow> int" where
  "tickClock n = 10 * int n"

section \<open>Properties\<close>

subsection \<open>Auxiliary facts about the loops\<close>

lemmas example_defs = resultA_def resultB_def resultC_def failedPoll_def deltaVitals_def
  failingVitals_def countAvailability_def configOf_def startState_def tickClock_def
lemmas step_defs = enrich_def prevResult_def historyOf_def addHistory_def maxHistory_def
  pruneHistory_def profileOf_def serverOf_def zeroResult_def durationStep_def finishBatch_def
  processHealthResult_def

lemma sends_append: "sends (xs @ ys) = sends xs @ sends ys"
  by (induction xs rule: sends.induct) simp_all

lemma signalAll_eq:
  "signalAll rs s =
     s\<lparr>clockReads := clockReads s + length rs,
       trace := trace s @ map (\<lambda>r. Send (PollFinished r) (PollID r)) rs\<rparr>"
  by (induction rs arbitrary: s) simp_all

lemma sends_map_Send:
  "sends (map (\<lambda>r. Send (PollFinished r) (PollID r)) rs) = map (\<lambda>r. (PollFinished r, PollID r)) rs"
  by (induction rs) simp_all

lemma finishBatch_sends:
  "sends (trace (snd (finishBatch ca now rs cfg td h s))) = sends (trace s)"
  by (simp add: finishBatch_def sends_append split: prod.splits outcome.splits)

lemma finishBatch_errorCount:
  "errorCount (snd (finishBatch ca now rs cfg td h s)) = errorCount s"
  by (simp add: finishBatch_def split: prod.splits outcome.splits)

lemma enrich_error: "Error r \<noteq> None \<Longrightarrow> enrich gv cfg hist r = Some r"
  by (auto simp: enrich_def)

lemma historyLoop_signals:
  assumes "\<And>r p c r'. gv r p c = Some r' \<Longrightarrow> PollFinished r' = PollFinished r \<and> PollID r' = PollID r"
    and "historyLoop gv cfg done rs hist fc = (out, rs', hist', fc')"
  shows "map (\<lambda>r. (PollFinished r, PollID r)) rs' =
         map (\<lambda>r. (PollFinished r, PollID r)) (done @ rs)"
  using assms(2)
proof (induction rs arbitrary: "done" hist fc)
  case Nil
  then show ?case by simp
next
  case (Cons r rest)
  show ?case
  proof (cases "enrich gv cfg hist r")
    case None
    with Cons.prems show ?thesis by simp
  next
    case (Some r')
    then have "PollFinished r' = PollFinished r \<and> PollID r' = PollID r"
      using assms(1) by (auto simp: enrich_def split: if_splits)
    moreover from Some Cons.prems
    have "map (\<lambda>r. (PollFinished r, PollID r)) rs' =
          map (\<lambda>r. (PollFinished r, PollID r)) ((done @ [r']) @ rest)"
      using Cons.IH by simp
    ultimately show ?thesis by simp
  qed
qed

lemma historyLoop_length:
  "historyLoop gv cfg done rs hist fc = (out, rs', hist', fc') \<Longrightarrow>
     length rs' = length done + length rs"
proof (induction rs arbitrary: "done" hist fc)
  case Nil
  then show ?case by simp
next
  case (Cons r rest)
  then show ?case by (cases "enrich gv cfg hist r") auto
qed

lemma historyLoop_keeps_errored:
  "historyLoop gv cfg done rs hist fc = (out, rs', hist', fc') \<Longrightarrow>
     (\<forall>j < length done. rs' ! j = done ! j) \<and>
     (\<forall>i < length rs. Error (rs ! i) \<noteq> None \<longrightarrow> rs' ! (length done + i) = rs ! i)"
proof (induction rs arbitrary: "done" hist fc)
  case Nil
  then show ?case by simp
next
  case (Cons r rest)
  show ?case
  proof (cases "enrich gv cfg hist r")
    case None
    with Cons.prems have "rs' = done @ r # rest" by simp
    then show ?thesis by (simp add: nth_append)
  next
    case (Some r')
    with Cons.prems have
      "historyLoop gv cfg (done @ [r']) rest (addHistory cfg hist r') (fc + 1) = (out, rs', hist', fc')"
      by simp
    from Cons.IH [OF this] have
      pre: "\<forall>j < length (done @ [r']). rs' ! j = (done @ [r']) ! j" and
      post: "\<forall>i < length rest. Error (rest ! i) \<noteq> None \<longrightarrow>
               rs' ! (length (done @ [r']) + i) = rest ! i"
      by blast+
    have a: "\<forall>j < length done. rs' ! j = done ! j"
      using pre by (auto simp: nth_append)
    have b: "rs' ! (length done + i) = (r # rest) ! i"
      if "i < length (r # rest)" "Error ((r # rest) ! i) \<noteq> None" for i
    proof (cases i)
      case 0
      with that Some have "r' = r" by (auto simp: enrich_def split: if_splits)
      moreover have "rs' ! length done = r'" using pre by (simp add: nth_append)
      ultimately show ?thesis using 0 by simp
    next
      case (Suc k)
      with that post show ?thesis by simp
    qed
    from a b show ?thesis by blast
  qed
qed

lemma process_sends:
  "sends (trace (snd (processHealthResult gv ca now rs s))) =
     sends (trace s) @
     map (\<lambda>r. (PollFinished r, PollID r))
       (fst (snd (historyLoop gv (monitorConfig s) [] rs (healthHistory s) (fetchCount s))))"
proof (cases "historyLoop gv (monitorConfig s) [] rs (healthHistory s) (fetchCount s)")
  case (fields out rs' h' fc')
  have len: "length rs' = length rs" using historyLoop_length [OF fields] by simp
  show ?thesis
  proof (cases rs)
    case Nil
    with fields show ?thesis by (simp add: processHealthResult_def)
  next
    case (Cons a list)
    then have ne: "length rs \<noteq> 0" by simp
    show ?thesis
    proof (cases out)
      case Returned
      obtain o2 s2 where fb: "finishBatch ca now rs' (monitorConfig s) (toData s) h'
              (s\<lparr>fetchCount := fc', trace := trace s @ [GetToData, GetMonitorConfig, GetHealthHistory]\<rparr>) = (o2, s2)"
        by (cases "finishBatch ca now rs' (monitorConfig s) (toData s) h'
              (s\<lparr>fetchCount := fc', trace := trace s @ [GetToData, GetMonitorConfig, GetHealthHistory]\<rparr>)") 
      have "sends (trace s2) = sends (trace s)"
        using finishBatch_sends [of ca now rs' "monitorConfig s" "toData s" h'
          "s\<lparr>fetchCount := fc', trace := trace s @ [GetToData, GetMonitorConfig, GetHealthHistory]\<rparr>"] fb
        by (simp add: sends_append)
      with fields Returned ne fb show ?thesis
        by (simp add: processHealthResult_def signalAll_eq sends_append sends_map_Send)
    next
      case Panicked
      with fields ne show ?thesis
        by (simp add: processHealthResult_def signalAll_eq sends_append sends_map_Send)
    qed
  qed
qed

text \<open>
  What the single steps compute: which entry is the previous result, what the resolved
  maximum is, and the bound on a history after a result has been put in front of it.
\<close>

lemma prevResult_last: "h \<noteq> [] \<Longrightarrow> prevResult h = last h"
  by (simp add: prevResult_def last_conv_nth)

lemma maxHistory_eq:
  "maxHistory cfg c =
     (if HistoryCount (Parameters (profileOf cfg (ServerProfile (serverOf cfg c)))) = 0 then 1
      else HistoryCount (Parameters (profileOf cfg (ServerProfile (serverOf cfg c)))))"
  by (simp add: maxHistory_def Let_def word_less_1)

lemma maxHistory_negative:
  assumes "sint (HistoryCount (Parameters (profileOf cfg (ServerProfile (serverOf cfg c))))) < 0"
  shows "maxHistory cfg c = HistoryCount (Parameters (profileOf cfg (ServerProfile (serverOf cfg c))))"
  using assms by (auto simp: maxHistory_eq)

lemma sint_nonneg_unat:
  fixes w :: "64 word"
  assumes "0 \<le> sint w"
  shows "sint w = int (unat w)"
proof -
  have "\<not> bit w (63::nat)" using assms bit_last_iff [of w] by simp
  then have nb: "\<not> bit (uint w) (63::nat)" by (simp add: bit_uint_iff)
  have "take_bit (Suc 63) (uint w) = uint w"
    using take_bit_length_eq [of w] by (simp add: unsigned_take_bit_eq [symmetric])
  then have "take_bit 63 (uint w) = uint w"
    using nb take_bit_Suc_from_most [of 63 "uint w"] by simp
  moreover have "sint w = signed_take_bit 63 (uint w)" by (simp add: sint_uint)
  ultimately show ?thesis using nb by (simp add: signed_take_bit_eq_if_positive)
qed

lemma historyOf_update: "historyOf (h(k \<mapsto> v)) k = v"
  by (simp add: historyOf_def)

lemma addHistory_bounds:
  assumes "0 \<le> sint (HistoryCount (Parameters (profileOf cfg (ServerProfile (serverOf cfg (ID r))))))"
  shows "1 \<le> length (historyOf (addHistory cfg h r) (ID r)) \<and>
         int (length (historyOf (addHistory cfg h r) (ID r))) \<le>
           max 1 (sint (HistoryCount (Parameters (profileOf cfg (ServerProfile (serverOf cfg (ID r)))))))"
proof -
  let ?c = "HistoryCount (Parameters (profileOf cfg (ServerProfile (serverOf cfg (ID r)))))"
  define n where "n = unat ?c"
  define l where "l = length (historyOf h (ID r))"
  have s: "sint ?c = int n"
    unfolding n_def using assms by (rule sint_nonneg_unat)
  have zero: "?c = 0 \<longleftrightarrow> n = 0"
    by (simp add: n_def unat_eq_0)
  have m: "unat (maxHistory cfg (ID r)) = (if n = 0 then 1 else n)"
    using zero by (simp add: maxHistory_eq n_def)
  have "historyOf (addHistory cfg h r) (ID r) =
          take (unat (maxHistory cfg (ID r))) (r # historyOf h (ID r))"
    by (simp add: addHistory_def pruneHistory_def historyOf_update)
  then have len: "length (historyOf (addHistory cfg h r) (ID r)) = (if n = 0 then 1 else min n (Suc l))"
    by (simp add: m l_def min.commute)
  show ?thesis
    unfolding len s by (cases "n = 0") auto
qed

subsection \<open>The previous result\<close>

text \<open>
  Claim C1. The previous result used for the vitals of a result is the most recent entry
  of the cache's history, the head of the most-recent-first sequence. The code reads
  the entry at index \<open>len - 1\<close> (\<open>prevResult_last\<close>): the history is kept with the
  newest entry in front, so that is the oldest one. With the history \<open>[B, A]\<close> of
  \<open>edge-1\<close>, B the more recent, the result C is enriched against A and not against B.
\<close>

theorem previous_result_is_oldest_entry:
  "enrich deltaVitals (configOf 3) [''edge-1'' \<mapsto> [resultB, resultA]] resultC =
     deltaVitals resultC resultA (configOf 3) \<and>
   hd [resultB, resultA] = resultB \<and>
   deltaVitals resultC resultA (configOf 3) \<noteq> deltaVitals resultC resultB (configOf 3)"
  by (simp add: example_defs step_defs)

subsection \<open>Completion signals\<close>

text \<open>
  Claim C2. For every non-empty batch, on the path that returns and on the paths where
  the vitals or the availability computation panics, the function sends one completion
  signal per result: the number of sends grows by the length of the batch, and when the
  vitals computation leaves a result's channel and poll number alone (it may rewrite the
  whole result), the sends are those of the batch's results, each once, in batch order.
\<close>

theorem completion_signal_per_result:
  assumes "rs \<noteq> []"
  shows "length (sends (trace (snd (processHealthResult gv ca now rs s)))) =
           length (sends (trace s)) + length rs \<and>
         ((\<forall>r p c r'. gv r p c = Some r' \<longrightarrow>
              PollFinished r' = PollFinished r \<and> PollID r' = PollID r) \<longrightarrow>
          sends (trace (snd (processHealthResult gv ca now rs s))) =
            sends (trace s) @ map (\<lambda>r. (PollFinished r, PollID r)) rs)"
proof (cases "historyLoop gv (monitorConfig s) [] rs (healthHistory s) (fetchCount s)")
  case (fields out rs' h' fc')
  have "length rs' = length rs" using historyLoop_length [OF fields] by simp
  moreover have "map (\<lambda>r. (PollFinished r, PollID r)) rs' = map (\<lambda>r. (PollFinished r, PollID r)) rs"
    if "\<forall>r p c r'. gv r p c = Some r' \<longrightarrow>
              PollFinished r' = PollFinished r \<and> PollID r' = PollID r"
    using historyLoop_signals [OF _ fields] that by simp
  ultimately show ?thesis
    by (simp add: process_sends fields)
qed

theorem completion_signal_per_result_witness:
  "fst (processHealthResult failingVitals countAvailability tickClock
          [resultA, resultB, failedPoll] (startState 2)) = Panicked \<and>
   sends (trace (snd (processHealthResult failingVitals countAvailability tickClock
          [resultA, resultB, failedPoll] (startState 2)))) = [(11, 1), (12, 2), (14, 4)]"
proof -
  have ne: "[resultA, resultB, failedPoll] \<noteq> []" by simp
  have keep: "\<forall>r p c r'. failingVitals r p c = Some r' \<longrightarrow>
      PollFinished r' = PollFinished r \<and> PollID r' = PollID r"
    by (auto simp: failingVitals_def deltaVitals_def split: if_splits)
  have out: "fst (processHealthResult failingVitals countAvailability tickClock
          [resultA, resultB, failedPoll] (startState 2)) = Panicked"
    by (simp add: resultA_def resultB_def failedPoll_def failingVitals_def deltaVitals_def
        startState_def configOf_def processHealthResult_def enrich_def prevResult_def
        historyOf_def addHistory_def maxHistory_def pruneHistory_def profileOf_def
        serverOf_def zeroResult_def signalAll_eq)
  from completion_signal_per_result [OF ne, of failingVitals countAvailability tickClock "startState 2"] keep
  have "sends (trace (snd (processHealthResult failingVitals countAvailability tickClock
          [resultA, resultB, failedPoll] (startState 2)))) =
        sends (trace (startState 2)) @
          map (\<lambda>r. (PollFinished r, PollID r)) [resultA, resultB, failedPoll]"
    by blast
  also have "\<dots> = [(11, 1), (12, 2), (14, 4)]"
    by (simp add: resultA_def resultB_def failedPoll_def startState_def)
  finally show ?thesis using out by simp
qed

subsection \<open>The bound on the history\<close>

text \<open>
  Claim C3. After processed results a cache's history has at least one entry and at most
  \<open>max(1, configured count)\<close>. The code keeps the bound for a count that is not
  negative (\<open>addHistory_bounds\<close>). With the count -1 the resolved maximum is
  \<open>2^64 - 1\<close>, nothing is pruned, and three results leave a history of length 3 where
  the bound is 1.
\<close>

theorem history_exceeds_bound_for_negative_count:
  "max 1 (sint (HistoryCount (Parameters (profileOf (monitorConfig (startState (- 1)))
      (ServerProfile (serverOf (monitorConfig (startState (- 1))) ''edge-1'')))))) = 1 \<and>
   length (historyOf (healthHistory (snd (processHealthResult deltaVitals countAvailability
      tickClock [resultA, resultB, resultC] (startState (- 1))))) ''edge-1'') = 3"
  by (simp add: example_defs step_defs unsigned_minus_1_eq_mask mask_eq_exp_minus_1)

subsection \<open>The resolved maximum\<close>

text \<open>
  Claim C4. A configured history count less than 1, zero or negative, is replaced by 1.
  The code converts the count to \<^verbatim>\<open>uint64\<close> before it compares it with 1, so only
  the count 0 is replaced (\<open>maxHistory_eq\<close>): the count -1 resolves to \<open>2^64 - 1\<close>.
\<close>

theorem negative_count_not_coerced:
  "sint (HistoryCount (Parameters (profileOf (configOf (- 1))
      (ServerProfile (serverOf (configOf (- 1)) ''edge-1''))))) = - 1 \<and>
   maxHistory (configOf (- 1)) ''edge-1'' \<noteq> 1 \<and>
   unat (maxHistory (configOf (- 1)) ''edge-1'') = 18446744073709551615"
  by (simp add: example_defs step_defs unsigned_minus_1_eq_mask mask_eq_exp_minus_1)

subsection \<open>Three results in one batch\<close>

text \<open>
  Claim C5, as the code has it. Three results A, B, C of \<open>edge-1\<close> without errors, in
  one batch, with history count 2, no history and no end time for \<open>edge-1\<close>, and
  external computations that return: the function returns; the history of \<open>edge-1\<close> is
  C then B, each as the vitals computation enriched it; the fetch counter has grown by
  3; the duration map has changed at \<open>edge-1\<close> only, to the reading that
  \<^verbatim>\<open>time.Since\<close> takes for C minus the end time recorded for B. The end time recorded
  for C is the reading after that one.
\<close>

theorem three_results_one_batch:
  assumes ids: "ID A = ''edge-1''" "ID B = ''edge-1''" "ID C = ''edge-1''"
    and ok: "Error A = None" "Error B = None" "Error C = None"
    and count: "HistoryCount (Parameters (profileOf (monitorConfig s)
                  (ServerProfile (serverOf (monitorConfig s) ''edge-1'')))) = 2"
    and fresh: "historyOf (healthHistory s) ''edge-1'' = []"
               "lastHealthEndTimes s ''edge-1'' = None"
    and vitals: "\<And>r p. \<exists>r'. gv r p (monitorConfig s) = Some r' \<and> ID r' = ID r"
    and avail: "\<And>rs. fst (ca rs (monitorConfig s) (toData s) (avail s)) = Returned"
  shows "\<exists>s' pB pC B' C'.
           processHealthResult gv ca now [A, B, C] s = (Returned, s') \<and>
           gv B pB (monitorConfig s) = Some B' \<and>
           gv C pC (monitorConfig s) = Some C' \<and>
           healthHistory s' ''edge-1'' = Some [C', B'] \<and>
           fetchCount s' = fetchCount s + 3 \<and>
           lastHealthDurations s' =
             (lastHealthDurations s)(''edge-1'' \<mapsto>
                now (clockReads s + 3) - now (clockReads s + 2)) \<and>
           lastHealthEndTimes s' ''edge-1'' = Some (now (clockReads s + 4))"
proof -
  let ?cfg = "monitorConfig s"
  let ?h0 = "healthHistory s"
  have mh: "maxHistory ?cfg ''edge-1'' = 2"
    using count by (simp add: maxHistory_def)
  obtain A' where A': "gv A (prevResult (historyOf ?h0 ''edge-1'')) ?cfg = Some A'" "ID A' = ''edge-1''"
    using vitals [of A "prevResult (historyOf ?h0 ''edge-1'')"] ids by auto
  define h1 where "h1 = addHistory ?cfg ?h0 A'"
  have h1: "historyOf h1 ''edge-1'' = [A']"
    using A' fresh mh by (simp add: h1_def addHistory_def pruneHistory_def historyOf_update)
  obtain B' where B': "gv B (prevResult (historyOf h1 ''edge-1'')) ?cfg = Some B'" "ID B' = ''edge-1''"
    using vitals [of B "prevResult (historyOf h1 ''edge-1'')"] ids by auto
  define h2 where "h2 = addHistory ?cfg h1 B'"
  have h2: "historyOf h2 ''edge-1'' = [B', A']"
    using B' h1 mh by (simp add: h2_def addHistory_def pruneHistory_def historyOf_update)
  obtain C' where C': "gv C (prevResult (historyOf h2 ''edge-1'')) ?cfg = Some C'" "ID C' = ''edge-1''"
    using vitals [of C "prevResult (historyOf h2 ''edge-1'')"] ids by auto
  define h3 where "h3 = addHistory ?cfg h2 C'"
  have h3: "h3 ''edge-1'' = Some [C', B']"
    using C' h2 mh by (simp add: h3_def addHistory_def pruneHistory_def)
  have eA: "enrich gv ?cfg ?h0 A = Some A'"
    using A' ids ok by (simp add: enrich_def)
  have eB: "enrich gv ?cfg h1 B = Some B'"
    using B' ids ok by (simp add: enrich_def)
  have eC: "enrich gv ?cfg h2 C = Some C'"
    using C' ids ok by (simp add: enrich_def)
  have loop: "historyLoop gv ?cfg [] [A, B, C] ?h0 (fetchCount s) =
                (Returned, [A', B', C'], h3, fetchCount s + 3)"
    using eA eB eC by (simp add: h1_def h2_def h3_def add.assoc)
  obtain a where ca: "ca [A', B', C'] ?cfg (toData s) (avail s) = (Returned, a)"
    using avail [of "[A', B', C']"] by (cases "ca [A', B', C'] ?cfg (toData s) (avail s)") simp
  have dur: "durationLoop now [A', B', C']
               (lastHealthDurations s, lastHealthEndTimes s, clockReads s) =
             ((lastHealthDurations s)(''edge-1'' \<mapsto>
                 now (clockReads s + 3) - now (clockReads s + 2)),
              (lastHealthEndTimes s)(''edge-1'' \<mapsto> now (clockReads s + 4)),
              clockReads s + 5)"
    using A' B' C' fresh by (simp add: durationStep_def eval_nat_numeral)
  define s' where "s' = snd (processHealthResult gv ca now [A, B, C] s)"
  have run: "processHealthResult gv ca now [A, B, C] s = (Returned, s')"
    unfolding s'_def using loop ca dur
    by (simp add: processHealthResult_def finishBatch_def)
  have "healthHistory s' ''edge-1'' = Some [C', B']"
    unfolding s'_def using loop ca dur h3
    by (simp add: processHealthResult_def finishBatch_def signalAll_eq)
  moreover have "fetchCount s' = fetchCount s + 3"
    unfolding s'_def using loop ca dur
    by (simp add: processHealthResult_def finishBatch_def signalAll_eq)
  moreover have "lastHealthDurations s' =
             (lastHealthDurations s)(''edge-1'' \<mapsto>
                now (clockReads s + 3) - now (clockReads s + 2))"
    unfolding s'_def using loop ca dur
    by (simp add: processHealthResult_def finishBatch_def signalAll_eq)
  moreover have "lastHealthEndTimes s' ''edge-1'' = Some (now (clockReads s + 4))"
    unfolding s'_def using loop ca dur
    by (simp add: processHealthResult_def finishBatch_def signalAll_eq)
  ultimately show ?thesis
    using run B'(1) C'(1) by blast
qed

theorem three_results_one_batch_witness:
  "fst (processHealthResult deltaVitals countAvailability tickClock
          [resultA, resultB, resultC] (startState 2)) = Returned \<and>
   map PollID (historyOf (healthHistory (snd (processHealthResult deltaVitals countAvailability
          tickClock [resultA, resultB, resultC] (startState 2)))) ''edge-1'') = [3, 2] \<and>
   fetchCount (snd (processHealthResult deltaVitals countAvailability tickClock
          [resultA, resultB, resultC] (startState 2))) = 3 \<and>
   lastHealthDurations (snd (processHealthResult deltaVitals countAvailability tickClock
          [resultA, resultB, resultC] (startState 2))) = [''edge-1'' \<mapsto> 10]"
proof -
  have count: "HistoryCount (Parameters (profileOf (monitorConfig (startState 2))
                  (ServerProfile (serverOf (monitorConfig (startState 2)) ''edge-1'')))) = 2"
    by (simp add: startState_def configOf_def profileOf_def serverOf_def)
  have fresh: "historyOf (healthHistory (startState 2)) ''edge-1'' = []"
              "lastHealthEndTimes (startState 2) ''edge-1'' = None"
    by (simp_all add: startState_def historyOf_def)
  have vitals: "\<exists>r'. deltaVitals r p (monitorConfig (startState 2)) = Some r' \<and> ID r' = ID r"
    for r p
    by (simp add: deltaVitals_def)
  have avail: "fst (countAvailability rs (monitorConfig (startState 2))
                 (toData (startState 2)) (avail (startState 2))) = Returned" for rs
    by (simp add: countAvailability_def)
  from three_results_one_batch [of resultA resultB resultC "startState 2" deltaVitals
      countAvailability tickClock, OF _ _ _ _ _ _ count fresh vitals avail]
  obtain s' pB pC B' C' where
    run: "processHealthResult deltaVitals countAvailability tickClock
            [resultA, resultB, resultC] (startState 2) = (Returned, s')" and
    en: "deltaVitals resultB pB (monitorConfig (startState 2)) = Some B'"
        "deltaVitals resultC pC (monitorConfig (startState 2)) = Some C'" and
    res: "healthHistory s' ''edge-1'' = Some [C', B']"
         "fetchCount s' = fetchCount (startState 2) + 3"
         "lastHealthDurations s' = (lastHealthDurations (startState 2))(''edge-1'' \<mapsto>
            tickClock (clockReads (startState 2) + 3) - tickClock (clockReads (startState 2) + 2))"
    by (auto simp: resultA_def resultB_def resultC_def)
  from en have "PollID B' = 2 \<and> PollID C' = 3"
    by (auto simp: deltaVitals_def resultB_def resultC_def)
  moreover from res have "fetchCount s' = 3" "lastHealthDurations s' = [''edge-1'' \<mapsto> 10]"
    by (simp_all add: startState_def tickClock_def)
  ultimately show ?thesis
    using res(1) by (simp add: run historyOf_def)
qed

text \<open>
  Claim C5 as stated fails on the duration, which is not the gap between the two end
  times: with a clock that advances by
  10 ns per reading, B's end time is 20, the duration recorded for C is 10, and C's
  end time is 40.
\<close>

theorem duration_is_not_gap_of_end_times:
  "lastHealthDurations (snd (processHealthResult deltaVitals countAvailability tickClock
       [resultA, resultB, resultC] (startState 2))) ''edge-1'' = Some 10 \<and>
   fst (snd (durationLoop tickClock [resultA, resultB] (Map.empty, Map.empty, 0))) ''edge-1'' =
     Some 20 \<and>
   lastHealthEndTimes (snd (processHealthResult deltaVitals countAvailability tickClock
       [resultA, resultB, resultC] (startState 2))) ''edge-1'' = Some 40 \<and>
   (10::int) \<noteq> 40 - 20"
  by (simp add: example_defs step_defs signalAll_eq)

subsection \<open>Durations\<close>

text \<open>
  Claim C6. For one result of the duration loop: when the cache has no end time yet (its
  first processed result), the duration map is left as it is; when it has one, the
  duration recorded for the cache is the clock reading of \<^verbatim>\<open>time.Since\<close> minus that
  end time; in both cases the cache's end time becomes the next clock reading
  (\<^verbatim>\<open>time.Now\<close>).
\<close>

theorem duration_since_previous_end_time:
  "durationStep now r (durations, endTimes, n) = (durations', endTimes', n') \<Longrightarrow>
     (endTimes (ID r) = None \<longrightarrow>
        durations' = durations \<and> endTimes' = endTimes(ID r \<mapsto> now n)) \<and>
     (\<forall>t. endTimes (ID r) = Some t \<longrightarrow>
        durations' = durations(ID r \<mapsto> now n - t) \<and>
        endTimes' = endTimes(ID r \<mapsto> now (Suc n)))"
  by (auto simp: durationStep_def)

theorem duration_since_previous_end_time_witness:
  "fst (durationStep tickClock resultA (Map.empty, Map.empty, 0)) = Map.empty \<and>
   fst (snd (durationStep tickClock resultA (Map.empty, Map.empty, 0))) ''edge-1'' = Some 0 \<and>
   fst (durationStep tickClock resultB (Map.empty, [''edge-1'' \<mapsto> 5], 3)) ''edge-1'' = Some 25 \<and>
   fst (snd (durationStep tickClock resultB (Map.empty, [''edge-1'' \<mapsto> 5], 3))) ''edge-1'' = Some 40"
proof -
  obtain d1 e1 n1 where first:
    "durationStep tickClock resultA (Map.empty, Map.empty, 0) = (d1, e1, n1)"
    by (cases "durationStep tickClock resultA (Map.empty, Map.empty, 0)")
  obtain d2 e2 n2 where later:
    "durationStep tickClock resultB (Map.empty, [''edge-1'' \<mapsto> 5], 3) = (d2, e2, n2)"
    by (cases "durationStep tickClock resultB (Map.empty, [''edge-1'' \<mapsto> 5], 3)")
  from duration_since_previous_end_time [OF first]
  have "d1 = Map.empty \<and> e1 ''edge-1'' = Some 0"
    by (simp add: resultA_def tickClock_def)
  moreover from duration_since_previous_end_time [OF later]
  have "d2 ''edge-1'' = Some 25 \<and> e2 ''edge-1'' = Some 40"
    by (simp add: resultB_def tickClock_def)
  ultimately show ?thesis
    by (simp add: first later)
qed

subsection \<open>Results that carry an error\<close>

text \<open>
  Claim C7. A result with a non-nil error is not handed to the vitals computation: for
  every such computation, also one that always panics, the loop goes on with the result
  itself in the batch, put in front of its cache's history (which is then pruned). And
  wherever it stands in a batch, the completion signal at its place is its own.
\<close>

theorem errored_result_kept_and_signalled:
  assumes "Error r \<noteq> None"
  shows "historyLoop gv cfg acc (r # rest) hist fc =
           historyLoop gv cfg (acc @ [r]) rest
             (hist(ID r \<mapsto> pruneHistory (r # historyOf hist (ID r)) (maxHistory cfg (ID r))))
             (fc + 1) \<and>
         (\<forall>i < length rs. rs ! i = r \<longrightarrow>
            sends (trace (snd (processHealthResult gv ca now rs s))) !
              (length (sends (trace s)) + i) = (PollFinished r, PollID r))"
proof
  from assms have "enrich gv cfg hist r = Some r" by (rule enrich_error)
  then show "historyLoop gv cfg acc (r # rest) hist fc =
           historyLoop gv cfg (acc @ [r]) rest
             (hist(ID r \<mapsto> pruneHistory (r # historyOf hist (ID r)) (maxHistory cfg (ID r))))
             (fc + 1)"
    by (simp add: addHistory_def)
next
  show "\<forall>i < length rs. rs ! i = r \<longrightarrow>
            sends (trace (snd (processHealthResult gv ca now rs s))) !
              (length (sends (trace s)) + i) = (PollFinished r, PollID r)"
  proof (intro allI impI)
    fix i assume i: "i < length rs" and r: "rs ! i = r"
    obtain out rs' h' fc' where loop:
      "historyLoop gv (monitorConfig s) [] rs (healthHistory s) (fetchCount s) = (out, rs', h', fc')"
      by (cases "historyLoop gv (monitorConfig s) [] rs (healthHistory s) (fetchCount s)")
    have len: "length rs' = length rs" using historyLoop_length [OF loop] by simp
    have "rs' ! i = r"
      using historyLoop_keeps_errored [OF loop] i r assms by auto
    then show "sends (trace (snd (processHealthResult gv ca now rs s))) !
              (length (sends (trace s)) + i) = (PollFinished r, PollID r)"
      using i len by (simp add: process_sends loop)
  qed
qed

theorem errored_result_kept_and_signalled_witness:
  "fst (snd (snd (historyLoop (\<lambda>r p c. None) (configOf 2) [] [failedPoll] Map.empty 0))) ''edge-1'' =
     Some [failedPoll] \<and>
   sends (trace (snd (processHealthResult deltaVitals countAvailability tickClock
      [resultA, failedPoll] (startState 2)))) ! 1 = (14, 4)"
proof -
  have err: "Error failedPoll \<noteq> None" by (simp add: failedPoll_def)
  have "historyLoop (\<lambda>r p c. None) (configOf 2) [] [failedPoll] Map.empty 0 =
      historyLoop (\<lambda>r p c. None) (configOf 2) ([] @ [failedPoll]) []
        (Map.empty(ID failedPoll \<mapsto> pruneHistory (failedPoll # historyOf Map.empty (ID failedPoll))
           (maxHistory (configOf 2) (ID failedPoll)))) (0 + 1)"
    by (rule errored_result_kept_and_signalled [OF err, THEN conjunct1])
  then have a: "fst (snd (snd (historyLoop (\<lambda>r p c. None) (configOf 2) [] [failedPoll] Map.empty 0)))
       ''edge-1'' = Some [failedPoll]"
    by (simp add: example_defs step_defs)
  have "sends (trace (snd (processHealthResult deltaVitals countAvailability tickClock
      [resultA, failedPoll] (startState 2)))) ! (length (sends (trace (startState 2))) + 1) =
     (PollFinished failedPoll, PollID failedPoll)"
    by (rule errored_result_kept_and_signalled [OF err, THEN conjunct2, rule_format]) simp_all
  then have b: "sends (trace (snd (processHealthResult deltaVitals countAvailability tickClock
      [resultA, failedPoll] (startState 2)))) ! 1 = (14, 4)"
    by (simp add: failedPoll_def startState_def)
  from a b show ?thesis by simp
qed

subsection \<open>The empty batch\<close>

text \<open>
  Claim C8. An empty batch returns at once with the state as it was: no snapshot of a
  store is taken and no store is replaced (the trace is unchanged), the counters and
  maps are unchanged, and nothing is sent.
\<close>

theorem empty_batch_is_noop: "processHealthResult gv ca now [] s = (Returned, s)"
  by (simp add: processHealthResult_def)

theorem empty_batch_is_noop_witness:
  "processHealthResult deltaVitals countAvailability tickClock [] (startState 2) =
     (Returned, startState 2)"
  using empty_batch_is_noop [of deltaVitals countAvailability tickClock "startState 2"]
  by simp

subsection \<open>The error counter\<close>

text \<open>
  Claim C10. The function never changes the error counter: whatever the batch holds
  (results with errors included) and however it ends, the counter is what it was.
\<close>

theorem errorCount_untouched:
  "errorCount (snd (processHealthResult gv ca now rs s)) = errorCount s"
proof (cases "historyLoop gv (monitorConfig s) [] rs (healthHistory s) (fetchCount s)")
  case (fields out rs' h' fc')
  show ?thesis
  proof (cases out)
    case Returned
    with fields show ?thesis
      using finishBatch_errorCount [of ca now rs' "monitorConfig s" "toData s" h'
          "s\<lparr>fetchCount := fc', trace := trace s @ [GetToData, GetMonitorConfig, GetHealthHistory]\<rparr>"]
      by (auto simp: processHealthResult_def signalAll_eq split: prod.splits)
  next
    case Panicked
    with fields show ?thesis
      by (simp add: processHealthResult_def signalAll_eq)
  qed
qed

theorem errorCount_untouched_witness:
  "errorCount (snd (processHealthResult failingVitals countAvailability tickClock
     [failedPoll, resultA, resultB] (startState 2))) = 0"
  using errorCount_untouched [of failingVitals countAvailability tickClock
     "[failedPoll, resultA, resultB]" "startState 2"]
  by (simp add: startState_def)

end
